theory Spec2Isabelle
  imports Main "HOL-Library.Sublist" "HOL-Library.AList"
begin

section \<open>JavaScript strings\<close>

text \<open>
  Prompt texts, patterns and actions are JavaScript strings. They are modelled as
  \<^typ>\<open>string\<close>, one \<^typ>\<open>char\<close> per code unit, for texts whose code units are below 256
  (ASCII and Latin-1). \<open>String.prototype.toLowerCase\<close> maps \<open>A\<close>..\<open>Z\<close> and the
  Latin-1 capitals (U+00C0..U+00DE without the multiplication sign U+00D7) to the code
  unit 32 above, and leaves every other code unit below 256 as it is.
\<close>

definition toLowerCase_char :: "char \<Rightarrow> char" where
  "toLowerCase_char c =
     (let n = (of_char c :: nat)
      in if (65 \<le> n \<and> n \<le> 90) \<or> (192 \<le> n \<and> n \<le> 222 \<and> n \<noteq> 215)
         then char_of (n + 32) else c)"

definition toLowerCase :: "string \<Rightarrow> string" where
  "toLowerCase s = map toLowerCase_char s"

text \<open>
  \<open>s.includes(p)\<close>: \<open>p\<close> occurs in \<open>s\<close> as a contiguous substring. (\<open>includes\<close> is an
  Isabelle keyword, hence the prefix.)
\<close>

fun str_includes :: "string \<Rightarrow> string \<Rightarrow> bool" where
  "str_includes [] p = (p = [])"
| "str_includes (c # cs) p = (prefix p (c # cs) \<or> str_includes cs p)"

text \<open>
  \<open>String.prototype.trim\<close> removes white space and line terminators at both ends; below
  256 these are TAB, LF, VT, FF, CR, SPACE and NBSP.
\<close>

definition is_ws :: "char \<Rightarrow> bool" where
  "is_ws c = ((of_char c :: nat) \<in> {9, 10, 11, 12, 13, 32, 160})"

definition trim :: "string \<Rightarrow> string" where
  "trim s = rev (dropWhile is_ws (rev (dropWhile is_ws s)))"

text \<open>The regular-expression class \<open>\d\<close>: the ten ASCII digits.\<close>

definition is_digit :: "char \<Rightarrow> bool" where
  "is_digit c = (48 \<le> (of_char c :: nat) \<and> (of_char c :: nat) \<le> 57)"

section \<open>The state taxonomy (lib/ivr\_state\_tracker\_fixed.js)\<close>

text \<open>
  \<open>IVR_STATES\<close> is a closed table of fifteen state names. The tracker only ever holds
  values of this table, so the states are a datatype; \<open>state_name\<close> gives the string
  each constant stands for (it appears in log lines and descriptions).
\<close>

datatype ivr_state =
    GREETING | MAIN_MENU | REFILL_PRESCRIPTION | CHECK_STATUS | PRESCRIBER_MENU
  | PHARMACY_HOURS | WEEKLY_HOURS | LEAVE_MESSAGE | HOME_DELIVERY | REPEAT_OPTIONS
  | TRANSFER_TO_PHARMACY | ENTER_RX_NUMBER | CONFIRM_RX | INVALID_SELECTION | UNKNOWN

fun state_name :: "ivr_state \<Rightarrow> string" where
  "state_name GREETING = ''greeting''"
| "state_name MAIN_MENU = ''main_menu''"
| "state_name REFILL_PRESCRIPTION = ''refill_prescription''"
| "state_name CHECK_STATUS = ''check_status''"
| "state_name PRESCRIBER_MENU = ''prescriber_menu''"
| "state_name PHARMACY_HOURS = ''pharmacy_hours''"
| "state_name WEEKLY_HOURS = ''weekly_hours''"
| "state_name LEAVE_MESSAGE = ''leave_message''"
| "state_name HOME_DELIVERY = ''home_delivery''"
| "state_name REPEAT_OPTIONS = ''repeat_options''"
| "state_name TRANSFER_TO_PHARMACY = ''transfer_to_pharmacy''"
| "state_name ENTER_RX_NUMBER = ''enter_rx_number''"
| "state_name CONFIRM_RX = ''confirm_rx''"
| "state_name INVALID_SELECTION = ''invalid_selection''"
| "state_name UNKNOWN = ''unknown''"

text \<open>
  \<open>Object.values(IVR_STATES)\<close> and \<open>Object.entries(STATE_PATTERNS)\<close> enumerate in
  insertion order, which is the order of declaration.
\<close>

definition IVR_STATES :: "ivr_state list" where
  "IVR_STATES =
     [GREETING, MAIN_MENU, REFILL_PRESCRIPTION, CHECK_STATUS, PRESCRIBER_MENU,
      PHARMACY_HOURS, WEEKLY_HOURS, LEAVE_MESSAGE, HOME_DELIVERY, REPEAT_OPTIONS,
      TRANSFER_TO_PHARMACY, ENTER_RX_NUMBER, CONFIRM_RX, INVALID_SELECTION, UNKNOWN]"

definition STATE_PATTERNS :: "(ivr_state \<times> string list) list" where
  "STATE_PATTERNS =
     [(GREETING,
         [''global greeting'', ''welcome to'', ''Thank you for calling'']),
      (MAIN_MENU,
         [''To refill a prescription, press 1'',
          ''To check the status of a prescription, press 2'',
          ''If you are a prescriber, press 3'',
          ''To hear pharmacy hours and information, press 4'',
          ''To leave a message, press 5'',
          ''For our home delivery service, press 7'',
          ''To repeat these options, press 8'',
          ''To speak to the pharmacy, press 9'']),
      (REFILL_PRESCRIPTION,
         [''Please enter the prescription number'',
          ''Enter the prescription number you would like to refill'']),
      (CHECK_STATUS,
         [''Please enter the prescription number you would like to check'',
          ''Enter the prescription number to check status'']),
      (PRESCRIBER_MENU,
         [''For new prescriptions or to authorize refills, press 1'',
          ''To transfer to the pharmacy, press 2'',
          ''If you are a prescriber'']),
      (PHARMACY_HOURS,
         [''Today we're open until'',
          ''Press 1 for our weekly hours'',
          ''pharmacy hours and information'']),
      (WEEKLY_HOURS,
         [''Our normal business hours'', ''Monday from'', ''Tuesday from'']),
      (LEAVE_MESSAGE,
         [''leave your message after the tone'',
          ''leave a message'',
          ''After you're finished with your message'']),
      (HOME_DELIVERY,
         [''home delivery service'', ''mail order'', ''delivery service'']),
      (REPEAT_OPTIONS,
         [''repeat these options'', ''repeat the menu'', ''hear the options again'']),
      (TRANSFER_TO_PHARMACY,
         [''transferring you'', ''connect you'', ''speak to the pharmacy'']),
      (ENTER_RX_NUMBER,
         [''enter the prescription number'',
          ''Please enter the prescription'',
          ''Enter your prescription'']),
      (CONFIRM_RX,
         [''confirm'', ''Is this correct'', ''Press 1 to confirm'']),
      (INVALID_SELECTION,
         [''You entered an invalid selection'',
          ''invalid option'',
          ''not a valid selection''])]"

fun STATE_TRANSITIONS :: "ivr_state \<Rightarrow> ivr_state list" where
  "STATE_TRANSITIONS GREETING = [MAIN_MENU]"
| "STATE_TRANSITIONS MAIN_MENU =
     [REFILL_PRESCRIPTION, CHECK_STATUS, PRESCRIBER_MENU, PHARMACY_HOURS, LEAVE_MESSAGE,
      HOME_DELIVERY, REPEAT_OPTIONS, TRANSFER_TO_PHARMACY, INVALID_SELECTION, MAIN_MENU]"
| "STATE_TRANSITIONS REFILL_PRESCRIPTION = [ENTER_RX_NUMBER, MAIN_MENU]"
| "STATE_TRANSITIONS CHECK_STATUS = [ENTER_RX_NUMBER, MAIN_MENU]"
| "STATE_TRANSITIONS PRESCRIBER_MENU = [TRANSFER_TO_PHARMACY, MAIN_MENU]"
| "STATE_TRANSITIONS PHARMACY_HOURS = [WEEKLY_HOURS, MAIN_MENU]"
| "STATE_TRANSITIONS WEEKLY_HOURS = [MAIN_MENU]"
| "STATE_TRANSITIONS LEAVE_MESSAGE = [MAIN_MENU]"
| "STATE_TRANSITIONS HOME_DELIVERY = [MAIN_MENU]"
| "STATE_TRANSITIONS REPEAT_OPTIONS = [MAIN_MENU]"
| "STATE_TRANSITIONS TRANSFER_TO_PHARMACY = []"
| "STATE_TRANSITIONS ENTER_RX_NUMBER = [CONFIRM_RX, MAIN_MENU]"
| "STATE_TRANSITIONS CONFIRM_RX = [MAIN_MENU, TRANSFER_TO_PHARMACY]"
| "STATE_TRANSITIONS INVALID_SELECTION = [MAIN_MENU]"
| "STATE_TRANSITIONS UNKNOWN = IVR_STATES"

text \<open>
  \<open>STATE_DTMF_OPTIONS\<close>: \<open>None\<close> for a state the table has no key for. Every option is
  a string of one key; \<open>keys\<close> lists the one-key strings of the keys given.
\<close>

definition keys :: "string \<Rightarrow> string list" where
  "keys ks = map (\<lambda>k. [k]) ks"

fun STATE_DTMF_OPTIONS :: "ivr_state \<Rightarrow> string list option" where
  "STATE_DTMF_OPTIONS MAIN_MENU = Some (keys ''12345789'')"
| "STATE_DTMF_OPTIONS PHARMACY_HOURS = Some (keys ''129'')"
| "STATE_DTMF_OPTIONS WEEKLY_HOURS = Some (keys ''9'')"
| "STATE_DTMF_OPTIONS PRESCRIBER_MENU = Some (keys ''12'')"
| "STATE_DTMF_OPTIONS CONFIRM_RX = Some (keys ''12'')"
| "STATE_DTMF_OPTIONS LEAVE_MESSAGE = Some (keys ''#'')"
| "STATE_DTMF_OPTIONS REPEAT_OPTIONS = Some (keys ''12345789'')"
| "STATE_DTMF_OPTIONS HOME_DELIVERY = Some (keys ''9'')"
| "STATE_DTMF_OPTIONS UNKNOWN = Some (keys ''1234567890*#'')"
| "STATE_DTMF_OPTIONS _ = None"

section \<open>The state tracker\<close>

text \<open>
  The fields of \<open>FixedIvrStateTracker\<close>. \<open>stateTransitions\<close> is the nested tally object
  (an absent inner key is \<open>None\<close>); \<open>discoveredPatterns\<close> keeps its keys in insertion
  order, which is the order \<open>Object.entries\<close> scans them in; \<open>logged\<close> collects the
  lines handed to the injected \<open>logger\<close>.
\<close>

record tracker =
  currentState :: ivr_state
  previousState :: "ivr_state option"
  stateHistory :: "ivr_state list"
  stateTransitions :: "ivr_state \<Rightarrow> ivr_state \<Rightarrow> nat option"
  discoveredStates :: "ivr_state set"
  discoveredPatterns :: "(ivr_state \<times> string list) list"
  logged :: "string list"

definition new_tracker :: tracker where
  "new_tracker =
     \<lparr>currentState = UNKNOWN, previousState = None, stateHistory = [],
      stateTransitions = (\<lambda>_ _. None), discoveredStates = {},
      discoveredPatterns = [], logged = []\<rparr>"

subsection \<open>identifyState\<close>

text \<open>
  The two nested \<open>for\<close> loops over a pattern table return the first state, in table
  order, one of whose patterns (lower-cased) occurs in the lower-cased text.
\<close>

fun scan_patterns :: "string \<Rightarrow> (ivr_state \<times> string list) list \<Rightarrow> ivr_state option" where
  "scan_patterns lowerText [] = None"
| "scan_patterns lowerText ((state, patterns) # rest) =
     (if list_ex (\<lambda>pattern. str_includes lowerText (toLowerCase pattern)) patterns
      then Some state
      else scan_patterns lowerText rest)"

definition identifyState :: "tracker \<Rightarrow> string \<Rightarrow> ivr_state" where
  "identifyState t responseText =
     (if responseText = [] then UNKNOWN
      else
        let lowerText = toLowerCase responseText in
        if str_includes lowerText ''please enter the prescription number'' then
          (if str_includes lowerText ''refill'' \<or> previousState t = Some REFILL_PRESCRIPTION
             then REFILL_PRESCRIPTION
           else if str_includes lowerText ''status'' \<or> previousState t = Some CHECK_STATUS
             then CHECK_STATUS
           else ENTER_RX_NUMBER)
        else if str_includes lowerText ''for new prescriptions or to authorize refills''
          then PRESCRIBER_MENU
        else if str_includes lowerText ''leave your message after the tone''
          then LEAVE_MESSAGE
        else if str_includes lowerText ''invalid selection''
          then INVALID_SELECTION
        else
          (case scan_patterns lowerText STATE_PATTERNS of
             Some state \<Rightarrow> state
           | None \<Rightarrow>
               (case scan_patterns lowerText (discoveredPatterns t) of
                  Some state \<Rightarrow> state
                | None \<Rightarrow> UNKNOWN)))"

subsection \<open>updateState\<close>

text \<open>
  The tally step of \<open>updateState\<close>: an absent or zero counter is first set to 0, then
  the counter is incremented.
\<close>

definition tally_increment ::
  "(ivr_state \<Rightarrow> ivr_state \<Rightarrow> nat option) \<Rightarrow> ivr_state \<Rightarrow> ivr_state
     \<Rightarrow> (ivr_state \<Rightarrow> ivr_state \<Rightarrow> nat option)" where
  "tally_increment tr from to =
     (let tr0 = (case tr from to of
                   None \<Rightarrow> tr(from := (tr from)(to \<mapsto> 0))
                 | Some n \<Rightarrow> if n = 0 then tr(from := (tr from)(to \<mapsto> 0)) else tr)
      in tr0(from := (tr0 from)(to \<mapsto> (case tr0 from to of None \<Rightarrow> 0 | Some n \<Rightarrow> n) + 1)))"

definition transition_line :: "ivr_state \<Rightarrow> ivr_state \<Rightarrow> string" where
  "transition_line from to =
     ''State transition: '' @ state_name from @ '' -> '' @ state_name to"

definition warning_line :: "ivr_state \<Rightarrow> ivr_state \<Rightarrow> string" where
  "warning_line from to =
     ''Warning: Invalid state transition from '' @ state_name from @ '' to '' @ state_name to"

text \<open>\<open>updateState\<close> returns the new current state; the model returns it with the tracker.\<close>

definition updateState :: "string \<Rightarrow> tracker \<Rightarrow> ivr_state \<times> tracker" where
  "updateState responseText t =
     (let newState = identifyState t responseText;
          t1 = t\<lparr>discoveredStates := insert newState (discoveredStates t)\<rparr>;
          validTransitions = STATE_TRANSITIONS (currentState t1);
          isValidTransition = (newState \<in> set validTransitions \<or> currentState t1 = UNKNOWN)
      in if newState \<noteq> currentState t1 then
           let t2 = (if currentState t1 \<noteq> UNKNOWN
                     then t1\<lparr>stateTransitions :=
                               tally_increment (stateTransitions t1) (currentState t1) newState\<rparr>
                     else t1);
               t3 = (if isValidTransition then
                       t2\<lparr>logged := logged t2 @ [transition_line (currentState t2) newState],
                          previousState := Some (currentState t2),
                          currentState := newState,
                          stateHistory := stateHistory t2 @ [newState]\<rparr>
                     else
                       t2\<lparr>logged := logged t2 @ [warning_line (currentState t2) newState],
                          previousState := Some (currentState t2),
                          currentState := newState,
                          stateHistory := stateHistory t2 @ [newState]\<rparr>)
           in (currentState t3, t3)
         else (currentState t1, t1))"

subsection \<open>addStatePattern\<close>

text \<open>
  Assigning to a key of \<open>discoveredPatterns\<close> keeps an existing key at its place and puts
  a new key last, which is what \<open>AList.update\<close> does.
\<close>

definition added_line :: "ivr_state \<Rightarrow> string \<Rightarrow> string" where
  "added_line state pattern =
     ''Added new pattern for state '' @ state_name state @ '': '' @ [CHR 34] @ pattern @ [CHR 34]"

definition addStatePattern :: "ivr_state \<Rightarrow> string \<Rightarrow> tracker \<Rightarrow> tracker" where
  "addStatePattern state pattern t =
     (let t1 = (if map_of (discoveredPatterns t) state = None
                then t\<lparr>discoveredPatterns := AList.update state [] (discoveredPatterns t)\<rparr>
                else t);
          patterns = (case map_of (discoveredPatterns t1) state of
                        Some ps \<Rightarrow> ps | None \<Rightarrow> [])
      in if pattern \<notin> set patterns then
           t1\<lparr>discoveredPatterns :=
                 AList.update state (patterns @ [pattern]) (discoveredPatterns t1),
              logged := logged t1 @ [added_line state pattern]\<rparr>
         else t1)"

subsection \<open>getNextAction\<close>

text \<open>
  The options object with its two defaulted fields, and the action object returned. The
  exploration depth is a step counter, a natural number.
\<close>

record nav_options =
  mode :: string
  explorationDepth :: nat

definition default_options :: nav_options where
  "default_options = \<lparr>mode = ''normal'', explorationDepth = 0\<rparr>"

record action_info =
  action :: string
  input :: string
  description :: string

text \<open>The \<open>switch\<close> on the current state; \<open>UNKNOWN\<close> has no \<open>case\<close> and takes the default.\<close>

definition scripted_action :: "ivr_state \<Rightarrow> action_info" where
  "scripted_action s =
     (case s of
        GREETING \<Rightarrow>
          \<lparr>action = ''continue'', input = [], description = ''Continuing from greeting''\<rparr>
      | MAIN_MENU \<Rightarrow>
          \<lparr>action = ''hours'', input = ''4'', description = ''Selecting pharmacy hours''\<rparr>
      | PHARMACY_HOURS \<Rightarrow>
          \<lparr>action = ''weekly'', input = ''1'', description = ''Selecting weekly hours''\<rparr>
      | WEEKLY_HOURS \<Rightarrow>
          \<lparr>action = ''back'', input = ''9'', description = ''Returning to main menu''\<rparr>
      | REFILL_PRESCRIPTION \<Rightarrow>
          \<lparr>action = ''default'', input = ''0001234'',
           description = ''Entering prescription number''\<rparr>
      | ENTER_RX_NUMBER \<Rightarrow>
          \<lparr>action = ''default'', input = ''0001234'',
           description = ''Entering prescription number''\<rparr>
      | CHECK_STATUS \<Rightarrow>
          \<lparr>action = ''default'', input = ''0001234'',
           description = ''Entering prescription number for status''\<rparr>
      | CONFIRM_RX \<Rightarrow>
          \<lparr>action = ''confirm'', input = ''1'', description = ''Confirming prescription''\<rparr>
      | PRESCRIBER_MENU \<Rightarrow>
          \<lparr>action = ''transfer'', input = ''2'', description = ''Transferring to pharmacy''\<rparr>
      | LEAVE_MESSAGE \<Rightarrow>
          \<lparr>action = ''finish'', input = ''#'', description = ''Finishing message''\<rparr>
      | HOME_DELIVERY \<Rightarrow>
          \<lparr>action = ''back'', input = ''9'', description = ''Returning to main menu''\<rparr>
      | REPEAT_OPTIONS \<Rightarrow>
          \<lparr>action = ''hours'', input = ''4'',
           description = ''Selecting pharmacy hours after repeat''\<rparr>
      | TRANSFER_TO_PHARMACY \<Rightarrow>
          \<lparr>action = ''default'', input = [], description = ''Waiting during transfer''\<rparr>
      | INVALID_SELECTION \<Rightarrow>
          \<lparr>action = ''default'', input = ''9'',
           description = ''Returning to main menu after invalid selection''\<rparr>
      | _ \<Rightarrow>
          \<lparr>action = ''default'', input = [],
           description = ''Default action for unknown state''\<rparr>)"

definition getDtmfOptions :: "tracker \<Rightarrow> string list" where
  "getDtmfOptions t =
     (case STATE_DTMF_OPTIONS (currentState t) of
        Some opts \<Rightarrow> opts
      | None \<Rightarrow> (case STATE_DTMF_OPTIONS UNKNOWN of Some opts \<Rightarrow> opts | None \<Rightarrow> []))"

definition getNextAction :: "nav_options \<Rightarrow> tracker \<Rightarrow> action_info" where
  "getNextAction options t =
     (let dtmfOptions = getDtmfOptions t in
      if mode options = ''explore'' \<and> length dtmfOptions > 0 then
        let optionIndex = explorationDepth options mod length dtmfOptions in
        \<lparr>action = ''explore'',
         input = dtmfOptions ! optionIndex,
         description = ''Exploring option '' @ dtmfOptions ! optionIndex
                         @ '' in state '' @ state_name (currentState t)\<rparr>
      else scripted_action (currentState t))"

section \<open>The navigation driver (\<open>IvrIntegration\<close>)\<close>

text \<open>
  \<open>IvrIntegration\<close> talks to two collaborators: the Amazon Q session API and the IVR
  tester handed in by \<open>setIvrTester\<close>. Each request is a \<open>call\<close>; the collaborators are
  a state machine \<open>respond\<close> over a state \<open>'e\<close> of their own, which answers a call with
  a reply or throws. An IVR response is identified with the prompt text that
  \<open>extractTextFromResponse\<close> reads from it. Waiting, console output and the time stamp
  of a history entry are left out. The tester is taken to be set: without one
  \<open>runAutomatedNavigation\<close> throws before it does anything.
\<close>

datatype call =
    StartSession | SendMessage string | EndSession
  | StartCall string | SendDtmf string | ContinueCall | EndCall

datatype reply = Throw string | Reply string

record 'e env =
  respond :: "call \<Rightarrow> 'e \<Rightarrow> reply \<times> 'e"
  callActive :: "'e \<Rightarrow> bool"

record history_entry =
  step :: nat
  prompt :: string
  response :: string
  action_taken :: string
  ivrResponse :: "string option"

text \<open>
  The fields of the integration object, the state of the collaborators, and \<open>legs\<close>, the
  calls made so far, oldest first.
\<close>

record 'e integration =
  sessionId :: "string option"
  history :: "history_entry list"
  currentStep :: nat
  outside :: 'e
  legs :: "call list"

record nav_result =
  success :: bool
  error :: "string option"
  steps :: nat
  res_history :: "history_entry list"

definition perform :: "'e env \<Rightarrow> call \<Rightarrow> 'e integration \<Rightarrow> reply \<times> 'e integration" where
  "perform E c I =
     (case respond E c (outside I) of
        (r, e') \<Rightarrow> (r, I\<lparr>outside := e', legs := legs I @ [c]\<rparr>))"

text \<open>\<open>!this.sessionId\<close>: no session id, or an empty one.\<close>

definition no_session :: "'e integration \<Rightarrow> bool" where
  "no_session I = (case sessionId I of None \<Rightarrow> True | Some sid \<Rightarrow> sid = [])"

definition startSession :: "'e env \<Rightarrow> 'e integration \<Rightarrow> reply \<times> 'e integration" where
  "startSession E I =
     (case perform E StartSession I of
        (Throw m, I1) \<Rightarrow> (Throw m, I1)
      | (Reply sid, I1) \<Rightarrow> (Reply sid, I1\<lparr>sessionId := Some sid\<rparr>))"

text \<open>\<open>endSession\<close> catches what the request throws, and then keeps the session id.\<close>

definition endSession :: "'e env \<Rightarrow> 'e integration \<Rightarrow> 'e integration" where
  "endSession E I =
     (if no_session I then I
      else case perform E EndSession I of
             (Throw m, I1) \<Rightarrow> I1
           | (Reply r, I1) \<Rightarrow> I1\<lparr>sessionId := None\<rparr>)"

subsection \<open>extractAction and askAmazonQ\<close>

fun split_on :: "char \<Rightarrow> string \<Rightarrow> string list" where
  "split_on d [] = [[]]"
| "split_on d (c # cs) =
     (if c = d then [] # split_on d cs
      else case split_on d cs of
             l # ls \<Rightarrow> (c # l) # ls
           | [] \<Rightarrow> [[c]])"

definition extractAction :: "string \<Rightarrow> string" where
  "extractAction r =
     (let lines = filter (\<lambda>line. line \<noteq> []) (map trim (split_on (CHR 10) r))
      in if lines = [] then [] else last lines)"

definition askAmazonQ :: "'e env \<Rightarrow> string \<Rightarrow> 'e integration \<Rightarrow> reply \<times> 'e integration" where
  "askAmazonQ E ivrPrompt I =
     (case (if no_session I then startSession E I else (Reply [], I)) of
        (Throw m, I1) \<Rightarrow> (Throw m, I1)
      | (Reply sid, I1) \<Rightarrow>
          (case perform E (SendMessage ivrPrompt) I1 of
             (Throw m, I2) \<Rightarrow> (Throw m, I2)
           | (Reply answer, I2) \<Rightarrow> (Reply (extractAction answer), I2)))"

subsection \<open>Sending an action to the IVR\<close>

text \<open>
  \<open>/^\d+$/\<close>, \<open>/^\d{2,}$/\<close> and the first match of \<open>/\d+/\<close> (the leftmost maximal run of
  digits, if the string has a digit).
\<close>

definition all_digits :: "string \<Rightarrow> bool" where
  "all_digits a = (a \<noteq> [] \<and> list_all is_digit a)"

definition multi_digit :: "string \<Rightarrow> bool" where
  "multi_digit a = (2 \<le> length a \<and> list_all is_digit a)"

definition digitMatch :: "string \<Rightarrow> string option" where
  "digitMatch a =
     (let rest = dropWhile (\<lambda>c. \<not> is_digit c) a
      in if rest = [] then None else Some (takeWhile is_digit rest))"

text \<open>
  The split delivery, written twice in the source (for an all-digit action and for the
  digits found in another action): the first digit, the remaining digits, and one
  \<open>continueCall\<close> when the answer to the remaining digits is blank.
\<close>

definition send_split :: "'e env \<Rightarrow> string \<Rightarrow> 'e integration \<Rightarrow> reply \<times> 'e integration" where
  "send_split E digits I =
     (let firstDigit = take 1 digits;
          remainingDigits = drop 1 digits
      in case perform E (SendDtmf firstDigit) I of
           (Throw m, I1) \<Rightarrow> (Throw m, I1)
         | (Reply r1, I1) \<Rightarrow>
             (case perform E (SendDtmf remainingDigits) I1 of
                (Throw m, I2) \<Rightarrow> (Throw m, I2)
              | (Reply responseText, I2) \<Rightarrow>
                  if trim responseText = [] then perform E ContinueCall I2
                  else (Reply responseText, I2)))"

text \<open>The branch "Handle different types of actions" of the loop body.\<close>

definition dispatch :: "'e env \<Rightarrow> string \<Rightarrow> 'e integration \<Rightarrow> reply \<times> 'e integration" where
  "dispatch E act I =
     (if all_digits act \<or> act = ''*'' \<or> act = ''#'' then
        (if multi_digit act then send_split E act I
         else perform E (SendDtmf act) I)
      else
        (case digitMatch act of
           Some digits \<Rightarrow>
             if length digits > 1 then send_split E digits I
             else perform E (SendDtmf digits) I
         | None \<Rightarrow> perform E (SendDtmf (take 1 act)) I))"

text \<open>The check for a blank prompt that the loop body makes after the dispatch.\<close>

definition blank_recovery ::
  "'e env \<Rightarrow> string \<Rightarrow> string \<Rightarrow> 'e integration \<Rightarrow> reply \<times> 'e integration" where
  "blank_recovery E act currentPrompt I =
     (if trim currentPrompt = [] \<and> multi_digit act then perform E ContinueCall I
      else (Reply currentPrompt, I))"

subsection \<open>The navigation loop\<close>

text \<open>
  One pass through the loop body up to the step limit check: it throws, ends the call on
  "hang up", or yields the next prompt.
\<close>

datatype step_result = Thrown string | HungUp | NextPrompt string

definition nav_step ::
  "'e env \<Rightarrow> nat \<Rightarrow> string \<Rightarrow> 'e integration \<Rightarrow> step_result \<times> 'e integration" where
  "nav_step E n currentPrompt I =
     (case askAmazonQ E currentPrompt I of
        (Throw m, I1) \<Rightarrow> (Thrown m, I1)
      | (Reply act, I1) \<Rightarrow>
          let historyEntry =
                \<lparr>step = n, prompt = currentPrompt, response = act, action_taken = act,
                 ivrResponse = None\<rparr>
          in if toLowerCase act = ''hang up'' then
               (case perform E EndCall I1 of
                  (Throw m, I2) \<Rightarrow> (Thrown m, I2)
                | (Reply r, I2) \<Rightarrow>
                    (HungUp,
                     I2\<lparr>history :=
                          history I2 @ [historyEntry\<lparr>ivrResponse := Some ''Call ended''\<rparr>]\<rparr>))
             else
               (case dispatch E act I1 of
                  (Throw m, I2) \<Rightarrow> (Thrown m, I2)
                | (Reply resp, I2) \<Rightarrow>
                    (case blank_recovery E act resp I2 of
                       (Throw m, I3) \<Rightarrow> (Thrown m, I3)
                     | (Reply newPrompt, I3) \<Rightarrow>
                         (NextPrompt newPrompt,
                          I3\<lparr>history :=
                               history I3 @ [historyEntry\<lparr>ivrResponse := Some newPrompt\<rparr>]\<rparr>))))"

text \<open>
  The \<open>while (!testCompleted)\<close> loop. \<open>this.currentStep\<close> is the counter \<open>n\<close>. The loop
  is left by an exception or at one of its two \<open>break\<close>s, after "hang up" and at the
  step limit 20; both set \<open>testCompleted\<close> first, and the exit carries its value.
\<close>

datatype loop_exit = Escaped string | HangUpBreak bool | LimitBreak bool

function nav_loop ::
  "'e env \<Rightarrow> nat \<Rightarrow> string \<Rightarrow> 'e integration \<Rightarrow> loop_exit \<times> 'e integration" where
  "nav_loop E n currentPrompt I =
     (case nav_step E (n + 1) currentPrompt (I\<lparr>currentStep := n + 1\<rparr>) of
        (Thrown m, I1) \<Rightarrow> (Escaped m, I1)
      | (HungUp, I1) \<Rightarrow> (HangUpBreak True, I1)
      | (NextPrompt newPrompt, I1) \<Rightarrow>
          if n + 1 \<ge> 20 then
            (case perform E EndCall I1 of
               (Throw m, I2) \<Rightarrow> (Escaped m, I2)
             | (Reply r, I2) \<Rightarrow> (LimitBreak True, I2))
          else nav_loop E (n + 1) newPrompt I1)"
  by pat_completeness auto
termination
  by (relation "measure (\<lambda>(E, n, currentPrompt, I). 20 - n)") auto

text \<open>The \<open>catch\<close> block: end the call if it is active, end the session, report failure.\<close>

definition cleanup :: "'e env \<Rightarrow> 'e integration \<Rightarrow> 'e integration" where
  "cleanup E I =
     (let I1 = (if callActive E (outside I) then snd (perform E EndCall I) else I)
      in endSession E I1)"

definition failed :: "'e env \<Rightarrow> string \<Rightarrow> 'e integration \<Rightarrow> nav_result \<times> 'e integration" where
  "failed E m I =
     (let I1 = cleanup E I
      in (\<lparr>success = False, error = Some m, steps = currentStep I1,
           res_history = history I1\<rparr>, I1))"

text \<open>After the loop: end the session and report success with the steps and the history.\<close>

definition finished :: "'e env \<Rightarrow> 'e integration \<Rightarrow> nav_result \<times> 'e integration" where
  "finished E I =
     (let I1 = endSession E I
      in (\<lparr>success = True, error = None, steps = currentStep I1,
           res_history = history I1\<rparr>, I1))"

definition runAutomatedNavigation ::
  "'e env \<Rightarrow> string \<Rightarrow> 'e integration \<Rightarrow> nav_result \<times> 'e integration" where
  "runAutomatedNavigation E testName I =
     (case startSession E I of
        (Throw m, I1) \<Rightarrow> failed E m I1
      | (Reply sid, I1) \<Rightarrow>
          (case perform E (StartCall testName) I1 of
             (Throw m, I2) \<Rightarrow> failed E m I2
           | (Reply initialPrompt, I2) \<Rightarrow>
               (case nav_loop E 0 initialPrompt (I2\<lparr>currentStep := 0\<rparr>) of
                  (Escaped m, I3) \<Rightarrow> failed E m I3
                | (HangUpBreak testCompleted, I3) \<Rightarrow> finished E I3
                | (LimitBreak testCompleted, I3) \<Rightarrow> finished E I3)))"

section \<open>Notions used to state the properties\<close>

text \<open>
  A text contains a pattern case-insensitively when the lower-cased pattern occurs in the
  lower-cased text; this is the test \<open>identifyState\<close> applies to table patterns.
\<close>

definition contains_ci :: "string \<Rightarrow> string \<Rightarrow> bool" where
  "contains_ci text pattern = str_includes (toLowerCase text) (toLowerCase pattern)"

definition declared_patterns :: "ivr_state \<Rightarrow> string list" where
  "declared_patterns s = (case map_of STATE_PATTERNS s of Some ps \<Rightarrow> ps | None \<Rightarrow> [])"

definition matches_state :: "string \<Rightarrow> ivr_state \<Rightarrow> bool" where
  "matches_state text s = list_ex (contains_ci text) (declared_patterns s)"

text \<open>The states declared in \<open>STATE_PATTERNS\<close> before \<open>s\<close>.\<close>

definition earlier_declared :: "ivr_state \<Rightarrow> ivr_state list" where
  "earlier_declared s = takeWhile (\<lambda>s'. s' \<noteq> s) (map fst STATE_PATTERNS)"

text \<open>
  The four special-case phrases that \<open>identifyState\<close> tests before the table, each with
  the state its rule gives for this text and this tracker. A text contains a special-case
  phrase of another state than \<open>s\<close> when it contains one of these phrases and the rule
  gives a state different from \<open>s\<close>.
\<close>

definition special_case_phrases :: "tracker \<Rightarrow> string \<Rightarrow> (string \<times> ivr_state) list" where
  "special_case_phrases t text =
     [(''please enter the prescription number'',
       if contains_ci text ''refill'' \<or> previousState t = Some REFILL_PRESCRIPTION
         then REFILL_PRESCRIPTION
       else if contains_ci text ''status'' \<or> previousState t = Some CHECK_STATUS
         then CHECK_STATUS
       else ENTER_RX_NUMBER),
      (''for new prescriptions or to authorize refills'', PRESCRIBER_MENU),
      (''leave your message after the tone'', LEAVE_MESSAGE),
      (''invalid selection'', INVALID_SELECTION)]"

definition foreign_special_phrase :: "tracker \<Rightarrow> string \<Rightarrow> ivr_state \<Rightarrow> bool" where
  "foreign_special_phrase t text s =
     list_ex (\<lambda>(phrase, target). contains_ci text phrase \<and> target \<noteq> s)
       (special_case_phrases t text)"

text \<open>
  The digits that the dispatch of an action delivers in two legs, if it does: the action
  itself when it is two or more digits, and the first run of digits of an action that is
  neither digits nor \<open>*\<close> nor \<open>#\<close> when that run has two or more digits (as for
  \<open>9009400#\<close> and for \<open>Press 42\<close>). Every other dispatch is a single leg.
\<close>

definition split_digits :: "string \<Rightarrow> string option" where
  "split_digits act =
     (if all_digits act \<or> act = ''*'' \<or> act = ''#'' then
        (if multi_digit act then Some act else None)
      else
        (case digitMatch act of
           Some digits \<Rightarrow> if length digits > 1 then Some digits else None
         | None \<Rightarrow> None))"

text \<open>The patterns registered at run time for a state (none when the state has no key).\<close>

definition registered :: "tracker \<Rightarrow> ivr_state \<Rightarrow> string list" where
  "registered t s = (case map_of (discoveredPatterns t) s of Some ps \<Rightarrow> ps | None \<Rightarrow> [])"

text \<open>A tracker whose first prompt was the weekly hours announcement, for examples.\<close>

definition weekly_hours_tracker :: tracker where
  "weekly_hours_tracker =
     snd (updateState ''Our normal business hours are Monday from 9 to 5'' new_tracker)"

text \<open>
  Collaborators for examples: Amazon Q answers every prompt with \<open>answer\<close>, the IVR
  answers every leg with \<open>text\<close>, and nothing throws. The state counts the calls.
\<close>

definition example_env :: "string \<Rightarrow> string \<Rightarrow> nat env" where
  "example_env answer text =
     \<lparr>respond = (\<lambda>c k.
         (case c of
            StartSession \<Rightarrow> Reply ''session-1''
          | SendMessage p \<Rightarrow> Reply answer
          | EndSession \<Rightarrow> Reply []
          | StartCall testName \<Rightarrow> Reply text
          | SendDtmf digits \<Rightarrow> Reply text
          | ContinueCall \<Rightarrow> Reply text
          | EndCall \<Rightarrow> Reply [], Suc k)),
      callActive = (\<lambda>k. True)\<rparr>"

definition new_integration :: "nat integration" where
  "new_integration =
     \<lparr>sessionId = None, history = [], currentStep = 0, outside = 0, legs = []\<rparr>"

declare nav_loop.simps [simp del]

section \<open>Character classes on the bits of a character\<close>

text \<open>
  The three character functions, restated on the eight bits of a character (least
  significant first). Evaluation of concrete texts uses these equations.
\<close>

lemma toLowerCase_char_bits [code]:
  "toLowerCase_char (Char b0 b1 b2 b3 b4 b5 b6 b7) =
     (if b6 \<and> \<not> b5 \<and>
         ((\<not> b7 \<and> (b0 \<or> b1 \<or> b2 \<or> b3 \<or> b4) \<and> \<not> (b4 \<and> b3 \<and> (b2 \<or> (b1 \<and> b0))))
          \<or> (b7 \<and> \<not> (b4 \<and> b3 \<and> b2 \<and> b1 \<and> b0) \<and> \<not> (b4 \<and> \<not> b3 \<and> b2 \<and> b1 \<and> b0)))
      then Char b0 b1 b2 b3 b4 True b6 b7
      else Char b0 b1 b2 b3 b4 b5 b6 b7)"
  by (cases b0; cases b1; cases b2; cases b3; cases b4; cases b5; cases b6; cases b7;
      simp add: toLowerCase_char_def char_of_eq_iff)

lemma is_digit_bits [code]:
  "is_digit (Char b0 b1 b2 b3 b4 b5 b6 b7) =
     (\<not> b7 \<and> \<not> b6 \<and> b5 \<and> b4 \<and> (\<not> b3 \<or> (\<not> b2 \<and> \<not> b1)))"
  by (cases b0; cases b1; cases b2; cases b3; cases b4; cases b5; cases b6; cases b7;
      simp add: is_digit_def)

lemma is_ws_bits [code]:
  "is_ws (Char b0 b1 b2 b3 b4 b5 b6 b7) =
     (\<not> b6 \<and> \<not> b4 \<and>
      ((\<not> b7 \<and> \<not> b5 \<and> b3 \<and> (\<not> b2 \<and> (b0 \<or> b1) \<or> b2 \<and> \<not> b1))
       \<or> (b5 \<and> \<not> b3 \<and> \<not> b2 \<and> \<not> b1 \<and> \<not> b0)))"
  by (cases b0; cases b1; cases b2; cases b3; cases b4; cases b5; cases b6; cases b7;
      simp add: is_ws_def)

lemma str_includes_sublist: "str_includes s p \<longleftrightarrow> sublist p s"
  by (induction s) (simp_all add: sublist_Cons_right)

lemma string_function_examples:
  "toLowerCase ''Hang Up'' = ''hang up''"
  "trim [CHR 9, CHR 32, CHR ''o'', CHR ''k'', CHR 32, CHR 10, CHR 13, CHR 160] = ''ok''"
  "list_all is_digit ''0123456789''"
  "\<not> list_ex is_digit ''/:*# aZ''"
  "str_includes ''press 1 to confirm'' ''confirm''"
  "\<not> str_includes ''press 1'' ''press 2''"
  by code_simp+

section \<open>The state classifier\<close>

lemma scan_patterns_first:
  assumes "distinct (map fst tbl)" "map_of tbl s = Some ps"
    "list_ex (\<lambda>p. str_includes lt (toLowerCase p)) ps"
    "\<forall>s' \<in> set (takeWhile (\<lambda>s'. s' \<noteq> s) (map fst tbl)). \<forall>ps'. map_of tbl s' = Some ps' \<longrightarrow>
        \<not> list_ex (\<lambda>p. str_includes lt (toLowerCase p)) ps'"
  shows "scan_patterns lt tbl = Some s"
  using assms
proof (induction tbl)
  case Nil
  then show ?case by simp
next
  case (Cons e tbl)
  obtain s' ps' where e: "e = (s', ps')" by (cases e)
  show ?case
  proof (cases "s' = s")
    case True
    with Cons.prems e show ?thesis by simp
  next
    case False
    from Cons.prems(4) e False
    have nohead: "\<not> list_ex (\<lambda>p. str_includes lt (toLowerCase p)) ps'"
      by simp
    have d: "distinct (map fst tbl)" using Cons.prems(1) by simp
    have m: "map_of tbl s = Some ps" using Cons.prems(2) e False by simp
    have rest: "\<forall>s'' \<in> set (takeWhile (\<lambda>s'. s' \<noteq> s) (map fst tbl)).
        \<forall>ps''. map_of tbl s'' = Some ps'' \<longrightarrow>
          \<not> list_ex (\<lambda>p. str_includes lt (toLowerCase p)) ps''"
    proof (intro ballI allI impI)
      fix s'' ps''
      assume a: "s'' \<in> set (takeWhile (\<lambda>s'. s' \<noteq> s) (map fst tbl))"
        and b: "map_of tbl s'' = Some ps''"
      from a have "s'' \<in> set (map fst tbl)" by (rule set_takeWhileD[THEN conjunct1])
      with Cons.prems(1) e have ne: "s'' \<noteq> s'" by auto
      from a e False have "s'' \<in> set (takeWhile (\<lambda>s'. s' \<noteq> s) (map fst (e # tbl)))"
        by simp
      moreover from b ne e have "map_of (e # tbl) s'' = Some ps''" by simp
      ultimately show "\<not> list_ex (\<lambda>p. str_includes lt (toLowerCase p)) ps''"
        using Cons.prems(4) by blast
    qed
    from Cons.IH[OF d m Cons.prems(3) rest] nohead e show ?thesis by simp
  qed
qed

lemma distinct_STATE_PATTERNS: "distinct (map fst STATE_PATTERNS)"
  by (simp add: STATE_PATTERNS_def)

lemma declared_patterns_nonempty: "p \<in> set (declared_patterns s) \<Longrightarrow> p \<noteq> []"
  by (cases s) (auto simp add: declared_patterns_def STATE_PATTERNS_def)

lemma declared_patterns_map_of:
  "declared_patterns s \<noteq> [] \<Longrightarrow> map_of STATE_PATTERNS s = Some (declared_patterns s)"
  by (auto simp add: declared_patterns_def split: option.splits)

lemma toLowerCase_phrases:
  "toLowerCase ''please enter the prescription number''
     = ''please enter the prescription number''"
  "toLowerCase ''for new prescriptions or to authorize refills''
     = ''for new prescriptions or to authorize refills''"
  "toLowerCase ''leave your message after the tone'' = ''leave your message after the tone''"
  "toLowerCase ''invalid selection'' = ''invalid selection''"
  "toLowerCase ''refill'' = ''refill''"
  "toLowerCase ''status'' = ''status''"
  by (simp_all add: toLowerCase_def toLowerCase_char_def)

lemma toLowerCase_Nil_iff: "toLowerCase p = [] \<longleftrightarrow> p = []"
  by (simp add: toLowerCase_def)

text \<open>
  C4. For every state \<open>s\<close> of the taxonomy: when the text contains, case-insensitively, one
  of the patterns declared for \<open>s\<close>, no pattern of a state declared before \<open>s\<close>, and no
  special-case phrase of another state (no special-case phrase whose rule gives, for this
  text and previous state, a state other than \<open>s\<close>), then \<open>identifyState\<close> returns \<open>s\<close>.
  The table is scanned in declaration order and the first state with a matching pattern
  wins.
\<close>

theorem identifyState_first_match:
  assumes m: "matches_state text s"
    and e: "\<not> list_ex (matches_state text) (earlier_declared s)"
    and f: "\<not> foreign_special_phrase t text s"
  shows "identifyState t text = s"
proof -
  let ?lt = "toLowerCase text"
  let ?hit = "\<lambda>ps. list_ex (\<lambda>p. str_includes ?lt (toLowerCase p)) ps"
  from m obtain p where p: "p \<in> set (declared_patterns s)" "str_includes ?lt (toLowerCase p)"
    by (auto simp add: matches_state_def contains_ci_def list_ex_iff)
  have ne: "text \<noteq> []"
  proof
    assume "text = []"
    with p(2) have "toLowerCase p = []" by (simp add: toLowerCase_def)
    then have "p = []" by (simp add: toLowerCase_Nil_iff)
    with declared_patterns_nonempty[OF p(1)] show False by simp
  qed
  from p(1) have "declared_patterns s \<noteq> []" by auto
  then have mo: "map_of STATE_PATTERNS s = Some (declared_patterns s)"
    by (rule declared_patterns_map_of)
  have hit: "?hit (declared_patterns s)"
    using m by (simp add: matches_state_def contains_ci_def list_ex_iff)
  have before: "\<forall>s' \<in> set (takeWhile (\<lambda>s'. s' \<noteq> s) (map fst STATE_PATTERNS)).
      \<forall>ps'. map_of STATE_PATTERNS s' = Some ps' \<longrightarrow> \<not> ?hit ps'"
  proof (intro ballI allI impI)
    fix s' ps'
    assume a: "s' \<in> set (takeWhile (\<lambda>s'. s' \<noteq> s) (map fst STATE_PATTERNS))"
      and b: "map_of STATE_PATTERNS s' = Some ps'"
    from e a have "\<not> matches_state text s'"
      by (auto simp add: earlier_declared_def list_ex_iff)
    with b show "\<not> ?hit ps'"
      by (simp add: matches_state_def contains_ci_def declared_patterns_def list_ex_iff)
  qed
  have scan: "scan_patterns ?lt STATE_PATTERNS = Some s"
    by (rule scan_patterns_first[OF distinct_STATE_PATTERNS mo hit before])
  from f have sp:
    "str_includes ?lt ''please enter the prescription number'' \<Longrightarrow>
       (if str_includes ?lt ''refill'' \<or> previousState t = Some REFILL_PRESCRIPTION
          then REFILL_PRESCRIPTION
        else if str_includes ?lt ''status'' \<or> previousState t = Some CHECK_STATUS
          then CHECK_STATUS
        else ENTER_RX_NUMBER) = s"
    "str_includes ?lt ''for new prescriptions or to authorize refills'' \<Longrightarrow> PRESCRIBER_MENU = s"
    "str_includes ?lt ''leave your message after the tone'' \<Longrightarrow> LEAVE_MESSAGE = s"
    "str_includes ?lt ''invalid selection'' \<Longrightarrow> INVALID_SELECTION = s"
    by (auto simp add: foreign_special_phrase_def special_case_phrases_def contains_ci_def
          toLowerCase_phrases split: if_splits)
  show ?thesis
    using ne scan sp by (simp add: identifyState_def Let_def)
qed

theorem identifyState_first_match_witness:
  "matches_state ''Is this correct'' CONFIRM_RX
   \<and> \<not> list_ex (matches_state ''Is this correct'') (earlier_declared CONFIRM_RX)
   \<and> \<not> foreign_special_phrase new_tracker ''Is this correct'' CONFIRM_RX
   \<and> identifyState new_tracker ''Is this correct'' = CONFIRM_RX"
proof -
  have a: "matches_state ''Is this correct'' CONFIRM_RX" by code_simp
  have b: "\<not> list_ex (matches_state ''Is this correct'') (earlier_declared CONFIRM_RX)"
    by code_simp
  have c: "\<not> foreign_special_phrase new_tracker ''Is this correct'' CONFIRM_RX" by code_simp
  from identifyState_first_match[OF a b c] a b c show ?thesis by simp
qed

text \<open>
  The generic phrase "please enter the prescription number" is the first pattern declared
  for \<open>REFILL_PRESCRIPTION\<close>, but the special-case rule gives it to \<open>ENTER_RX_NUMBER\<close> when
  neither the text nor the previous state points to refill or status: there it is a
  special-case phrase of another state.
\<close>

lemma generic_rx_phrase_example:
  "matches_state ''Please enter the prescription number'' REFILL_PRESCRIPTION
   \<and> foreign_special_phrase new_tracker ''Please enter the prescription number''
        REFILL_PRESCRIPTION
   \<and> identifyState new_tracker ''Please enter the prescription number'' = ENTER_RX_NUMBER"
  by code_simp

section \<open>The transition tracker\<close>

lemma weekly_hours_tracker_eq:
  "weekly_hours_tracker =
     new_tracker\<lparr>discoveredStates := {WEEKLY_HOURS},
                 logged := [''State transition: unknown -> weekly_hours''],
                 previousState := Some UNKNOWN,
                 currentState := WEEKLY_HOURS,
                 stateHistory := [WEEKLY_HOURS]\<rparr>"
proof -
  have "identifyState new_tracker ''Our normal business hours are Monday from 9 to 5''
          = WEEKLY_HOURS"
    by code_simp
  then show ?thesis
    by (simp add: weekly_hours_tracker_def updateState_def Let_def new_tracker_def
          transition_line_def IVR_STATES_def)
qed

lemma tally_increment_at:
  "tally_increment tr a b a b = Some ((case tr a b of None \<Rightarrow> 0 | Some k \<Rightarrow> k) + 1)"
  by (simp add: tally_increment_def Let_def split: option.splits)

lemma tally_increment_other:
  "(a', b') \<noteq> (a, b) \<Longrightarrow> tally_increment tr a b a' b' = tr a' b'"
  by (auto simp add: tally_increment_def Let_def split: option.splits)

text \<open>
  C5. A transition to a state that is not a legal successor of the current state (the
  current state not being \<open>UNKNOWN\<close>) is not fatal. \<open>updateState\<close> returns the new state
  and updates the tracker exactly as for a legal transition: previous and current state
  are set, the new state is appended to the history and the tally of the pair is one
  higher. Only the logged line differs: a warning instead of the transition line.
\<close>

theorem illegal_transition_non_fatal:
  assumes "identifyState t text = n" and "n \<noteq> currentState t" and "currentState t \<noteq> UNKNOWN"
  shows "updateState text t =
           (n, t\<lparr>discoveredStates := insert n (discoveredStates t),
                 stateTransitions := tally_increment (stateTransitions t) (currentState t) n,
                 logged := logged t @
                   [if n \<in> set (STATE_TRANSITIONS (currentState t))
                    then transition_line (currentState t) n
                    else warning_line (currentState t) n],
                 previousState := Some (currentState t),
                 currentState := n,
                 stateHistory := stateHistory t @ [n]\<rparr>)
         \<and> tally_increment (stateTransitions t) (currentState t) n (currentState t) n
             = Some ((case stateTransitions t (currentState t) n of
                        None \<Rightarrow> 0 | Some k \<Rightarrow> k) + 1)"
  using assms by (simp add: updateState_def Let_def tally_increment_at)

text \<open>
  The scenario of the specification: the tracker is in \<open>WEEKLY_HOURS\<close>, whose only legal
  successor is \<open>MAIN_MENU\<close>, and the next prompt classifies as \<open>CONFIRM_RX\<close>.
\<close>

theorem illegal_transition_non_fatal_witness:
  "currentState weekly_hours_tracker = WEEKLY_HOURS
   \<and> identifyState weekly_hours_tracker ''Is this correct'' = CONFIRM_RX
   \<and> CONFIRM_RX \<notin> set (STATE_TRANSITIONS WEEKLY_HOURS)
   \<and> fst (updateState ''Is this correct'' weekly_hours_tracker) = CONFIRM_RX
   \<and> currentState (snd (updateState ''Is this correct'' weekly_hours_tracker)) = CONFIRM_RX
   \<and> previousState (snd (updateState ''Is this correct'' weekly_hours_tracker))
       = Some WEEKLY_HOURS
   \<and> stateHistory (snd (updateState ''Is this correct'' weekly_hours_tracker))
       = [WEEKLY_HOURS, CONFIRM_RX]
   \<and> stateTransitions (snd (updateState ''Is this correct'' weekly_hours_tracker))
        WEEKLY_HOURS CONFIRM_RX = Some 1
   \<and> logged (snd (updateState ''Is this correct'' weekly_hours_tracker))
       = [''State transition: unknown -> weekly_hours'',
          ''Warning: Invalid state transition from weekly_hours to confirm_rx'']"
proof -
  have a: "identifyState weekly_hours_tracker ''Is this correct'' = CONFIRM_RX"
    unfolding weekly_hours_tracker_eq by code_simp
  have b: "CONFIRM_RX \<noteq> currentState weekly_hours_tracker"
    by (simp add: weekly_hours_tracker_eq)
  have c: "currentState weekly_hours_tracker \<noteq> UNKNOWN"
    by (simp add: weekly_hours_tracker_eq)
  from illegal_transition_non_fatal[OF a b c] a show ?thesis
    by (simp add: weekly_hours_tracker_eq new_tracker_def warning_line_def)
qed

text \<open>
  C6. When the prompt classifies as the current state, \<open>updateState\<close> returns the current
  state and leaves the history, the tally, the current and the previous state (and the
  log) as they were. When the current state is \<open>UNKNOWN\<close>, the tally is left as it was
  even if the state changes.
\<close>

theorem self_loop_frame:
  "(identifyState t text = currentState t \<longrightarrow>
      fst (updateState text t) = currentState t
      \<and> stateHistory (snd (updateState text t)) = stateHistory t
      \<and> stateTransitions (snd (updateState text t)) = stateTransitions t
      \<and> currentState (snd (updateState text t)) = currentState t
      \<and> previousState (snd (updateState text t)) = previousState t
      \<and> logged (snd (updateState text t)) = logged t)
   \<and> (currentState t = UNKNOWN \<longrightarrow>
        stateTransitions (snd (updateState text t)) = stateTransitions t)"
  by (simp add: updateState_def Let_def)

theorem self_loop_frame_witness:
  "identifyState weekly_hours_tracker ''Tuesday from 9 to 5'' = currentState weekly_hours_tracker
   \<and> fst (updateState ''Tuesday from 9 to 5'' weekly_hours_tracker) = WEEKLY_HOURS
   \<and> stateHistory (snd (updateState ''Tuesday from 9 to 5'' weekly_hours_tracker))
       = [WEEKLY_HOURS]
   \<and> previousState (snd (updateState ''Tuesday from 9 to 5'' weekly_hours_tracker))
       = Some UNKNOWN
   \<and> currentState new_tracker = UNKNOWN
   \<and> fst (updateState ''Tuesday from 9 to 5'' new_tracker) = WEEKLY_HOURS
   \<and> stateTransitions (snd (updateState ''Tuesday from 9 to 5'' new_tracker))
        UNKNOWN WEEKLY_HOURS = None"
proof -
  have a: "identifyState weekly_hours_tracker ''Tuesday from 9 to 5''
             = currentState weekly_hours_tracker"
    unfolding weekly_hours_tracker_eq by code_simp
  have b: "currentState new_tracker = UNKNOWN" by (simp add: new_tracker_def)
  have c: "fst (updateState ''Tuesday from 9 to 5'' new_tracker) = WEEKLY_HOURS" by code_simp
  from self_loop_frame[of weekly_hours_tracker "''Tuesday from 9 to 5''"]
       self_loop_frame[of new_tracker "''Tuesday from 9 to 5''"] a b c
  show ?thesis by (simp add: weekly_hours_tracker_eq new_tracker_def)
qed

text \<open>
  C10. Every call of \<open>updateState\<close> adds the identified state to \<open>discoveredStates\<close>,
  whether or not a transition is recorded. After a first call whose prompt classifies as
  \<open>UNKNOWN\<close>, the set is \<open>{UNKNOWN}\<close> and the history is still empty.
\<close>

theorem updateState_discovers:
  "discoveredStates (snd (updateState text t))
     = insert (identifyState t text) (discoveredStates t)
   \<and> (identifyState new_tracker text = UNKNOWN \<longrightarrow>
        discoveredStates (snd (updateState text new_tracker)) = {UNKNOWN}
        \<and> stateHistory (snd (updateState text new_tracker)) = [])"
  by (simp add: updateState_def Let_def new_tracker_def)

theorem updateState_discovers_witness:
  "identifyState new_tracker ''beep'' = UNKNOWN
   \<and> UNKNOWN \<in> discoveredStates (snd (updateState ''beep'' new_tracker))
   \<and> stateHistory (snd (updateState ''beep'' new_tracker)) = []"
proof -
  have a: "identifyState new_tracker ''beep'' = UNKNOWN" by code_simp
  from updateState_discovers[of "''beep''" new_tracker] a show ?thesis by simp
qed

section \<open>The pattern registry\<close>

lemma registered_addStatePattern:
  "registered (addStatePattern s p t) s' =
     (if s' = s \<and> p \<notin> set (registered t s) then registered t s @ [p] else registered t s')"
  by (auto simp add: addStatePattern_def Let_def registered_def update_conv' split: option.splits)

lemma addStatePattern_registered_same:
  "p \<in> set (registered t s) \<Longrightarrow> addStatePattern s p t = t"
  by (auto simp add: addStatePattern_def Let_def registered_def split: option.splits)

lemma distinct_registered_fold:
  "distinct (registered t s') \<Longrightarrow>
   distinct (registered (fold (\<lambda>(s, p). addStatePattern s p) registrations t) s')"
proof (induction registrations arbitrary: t)
  case Nil
  then show ?case by simp
next
  case (Cons r rs)
  obtain s p where r: "r = (s, p)" by (cases r)
  from Cons.prems have "distinct (registered (addStatePattern s p t) s')"
    by (auto simp add: registered_addStatePattern)
  from Cons.IH[OF this] r show ?case by simp
qed

text \<open>
  C9. Registering a pattern is idempotent and never duplicates: \<open>addStatePattern s p\<close> on
  a tracker that already has \<open>p\<close> registered for \<open>s\<close> changes nothing, registering twice is
  registering once, a duplicate-free pattern list stays duplicate-free, every registry
  built from the empty one by registrations is duplicate-free, and no registered pattern
  of any state is removed.
\<close>

theorem addStatePattern_idempotent:
  "(p \<in> set (registered t s) \<longrightarrow> addStatePattern s p t = t)
   \<and> addStatePattern s p (addStatePattern s p t) = addStatePattern s p t
   \<and> (distinct (registered t s') \<longrightarrow> distinct (registered (addStatePattern s p t) s'))
   \<and> distinct (registered (fold (\<lambda>(s, p). addStatePattern s p) registrations new_tracker) s')
   \<and> set (registered t s') \<subseteq> set (registered (addStatePattern s p t) s')
   \<and> p \<in> set (registered (addStatePattern s p t) s)"
proof -
  have "p \<in> set (registered (addStatePattern s p t) s)"
    by (simp add: registered_addStatePattern)
  moreover from this have "addStatePattern s p (addStatePattern s p t) = addStatePattern s p t"
    by (rule addStatePattern_registered_same)
  moreover have "distinct (registered new_tracker s')"
    by (simp add: registered_def new_tracker_def)
  then have "distinct (registered
                (fold (\<lambda>(s, p). addStatePattern s p) registrations new_tracker) s')"
    by (rule distinct_registered_fold)
  ultimately show ?thesis
    by (auto simp add: registered_addStatePattern addStatePattern_registered_same)
qed

theorem addStatePattern_idempotent_witness:
  "''hold the line''
     \<in> set (registered (addStatePattern GREETING ''hold the line'' new_tracker) GREETING)
   \<and> discoveredPatterns (addStatePattern GREETING ''hold the line''
        (addStatePattern GREETING ''hold the line'' new_tracker))
       = [(GREETING, [''hold the line''])]
   \<and> distinct (registered new_tracker GREETING)
   \<and> distinct (registered (addStatePattern GREETING ''hold the line'' new_tracker) GREETING)"
proof -
  have a: "''hold the line''
     \<in> set (registered (addStatePattern GREETING ''hold the line'' new_tracker) GREETING)"
    by (simp add: registered_def addStatePattern_def new_tracker_def)
  have b: "distinct (registered new_tracker GREETING)"
    by (simp add: registered_def new_tracker_def)
  from addStatePattern_idempotent[of "''hold the line''"
         "addStatePattern GREETING ''hold the line'' new_tracker" GREETING GREETING "[]"]
       addStatePattern_idempotent[of "''hold the line''" new_tracker GREETING GREETING "[]"]
       a b
  show ?thesis
    by (simp add: addStatePattern_def new_tracker_def registered_def)
qed

section \<open>The action policy\<close>

text \<open>
  C7. In every mode other than \<open>explore\<close> (the scripted, "normal" mode) \<open>getNextAction\<close>
  returns, for every state of the taxonomy, the action of the \<open>switch\<close>; its input is one
  of seven fixed tokens. For \<open>UNKNOWN\<close>, the only state without a \<open>case\<close> of its own, it is
  the default action with the empty input, and for a state without successors
  (\<open>TRANSFER_TO_PHARMACY\<close>) the input is empty as well.
\<close>

theorem scripted_policy_fail_closed:
  "mode options \<noteq> ''explore'' \<longrightarrow>
     getNextAction options t = scripted_action (currentState t)
     \<and> input (scripted_action (currentState t))
          \<in> set [[], ''1'', ''2'', ''4'', ''9'', ''#'', ''0001234'']
     \<and> (currentState t = UNKNOWN \<longrightarrow>
          getNextAction options t =
            \<lparr>action = ''default'', input = [],
             description = ''Default action for unknown state''\<rparr>)
     \<and> (STATE_TRANSITIONS (currentState t) = [] \<longrightarrow> input (getNextAction options t) = [])"
  by (cases "currentState t")
     (simp_all add: getNextAction_def scripted_action_def Let_def IVR_STATES_def)

theorem scripted_policy_fail_closed_witness:
  "mode default_options \<noteq> ''explore''
   \<and> STATE_TRANSITIONS TRANSFER_TO_PHARMACY = []
   \<and> input (getNextAction default_options new_tracker) = []
   \<and> getNextAction default_options (new_tracker\<lparr>currentState := TRANSFER_TO_PHARMACY\<rparr>)
       = \<lparr>action = ''default'', input = [], description = ''Waiting during transfer''\<rparr>
   \<and> input (getNextAction default_options (new_tracker\<lparr>currentState := MAIN_MENU\<rparr>)) = ''4''"
  using scripted_policy_fail_closed[of default_options new_tracker]
        scripted_policy_fail_closed[of default_options
          "new_tracker\<lparr>currentState := TRANSFER_TO_PHARMACY\<rparr>"]
        scripted_policy_fail_closed[of default_options
          "new_tracker\<lparr>currentState := MAIN_MENU\<rparr>"]
  by (simp add: default_options_def new_tracker_def scripted_action_def)

text \<open>
  C8. In \<open>explore\<close> mode \<open>getNextAction\<close> goes round the candidate list of the current
  state: it returns the candidate at index \<open>explorationDepth mod length candidates\<close>,
  where the candidates are the list declared for the state in \<open>STATE_DTMF_OPTIONS\<close> or, for
  a state without one, the twelve default candidates (the digits, \<open>*\<close> and \<open>#\<close>). For
  \<open>PHARMACY_HOURS\<close>, with candidates 1, 2, 9, the depths 0, 1, 2, 3 give 1, 2, 9, 1.
\<close>

theorem exploration_round_robin:
  "getNextAction \<lparr>mode = ''explore'', explorationDepth = d\<rparr> t =
     (let candidates =
            (case STATE_DTMF_OPTIONS (currentState t) of
               Some declared \<Rightarrow> declared
             | None \<Rightarrow> keys ''1234567890*#'')
      in \<lparr>action = ''explore'',
          input = candidates ! (d mod length candidates),
          description = ''Exploring option '' @ candidates ! (d mod length candidates)
                          @ '' in state '' @ state_name (currentState t)\<rparr>)
   \<and> map (\<lambda>k. input (getNextAction \<lparr>mode = ''explore'', explorationDepth = k\<rparr>
                        (t\<lparr>currentState := PHARMACY_HOURS\<rparr>))) [0, 1, 2, 3]
       = [''1'', ''2'', ''9'', ''1'']"
  by (cases "currentState t")
     (simp_all add: getNextAction_def getDtmfOptions_def keys_def Let_def)

section \<open>Sending an action: the legs performed\<close>

lemma perform_legs: "legs (snd (perform E c I)) = legs I @ [c]"
  by (simp add: perform_def split: prod.splits)

lemma perform_frame:
  "perform E c I = (r, I') \<Longrightarrow>
     history I' = history I \<and> currentStep I' = currentStep I \<and> legs I' = legs I @ [c]"
  by (auto simp add: perform_def split: prod.splits)

lemma multi_digit_dispatch: "multi_digit act \<Longrightarrow> dispatch E act I = send_split E act I"
  by (auto simp add: dispatch_def multi_digit_def all_digits_def)

lemma short_action_dispatch:
  assumes "length act \<le> 1"
  shows "dispatch E act I = perform E (SendDtmf act) I"
proof (cases act)
  case Nil
  then show ?thesis
    by (simp add: dispatch_def all_digits_def digitMatch_def)
next
  case (Cons c cs)
  with assms have act: "act = [c]" by simp
  show ?thesis
  proof (cases "is_digit c")
    case True
    with act show ?thesis by (simp add: dispatch_def all_digits_def multi_digit_def)
  next
    case False
    with act show ?thesis
      by (simp add: dispatch_def all_digits_def multi_digit_def digitMatch_def)
  qed
qed

lemma send_split_legs:
  assumes "perform E (SendDtmf (take 1 ds)) I = (Reply r1, I1)"
  shows "\<exists>recovery. legs (snd (send_split E ds I))
           = legs I @ [SendDtmf (take 1 ds), SendDtmf (drop 1 ds)] @ recovery
         \<and> (recovery = [] \<or> recovery = [ContinueCall])"
proof -
  obtain r2 I2 where p2: "perform E (SendDtmf (drop 1 ds)) I1 = (r2, I2)" by fastforce
  obtain r3 I3 where p3: "perform E ContinueCall I2 = (r3, I3)" by fastforce
  from perform_frame[OF assms] perform_frame[OF p2] perform_frame[OF p3] assms p2 p3
  show ?thesis
    by (cases r2) (auto simp add: send_split_def Let_def)
qed

lemma send_split_blank:
  assumes "perform E (SendDtmf (take 1 ds)) I = (Reply r1, I1)"
    and "perform E (SendDtmf (drop 1 ds)) I1 = (Reply r2, I2)"
    and "trim r2 = []"
  shows "send_split E ds I = perform E ContinueCall I2
       \<and> legs (snd (send_split E ds I))
           = legs I @ [SendDtmf (take 1 ds), SendDtmf (drop 1 ds), ContinueCall]"
  using assms perform_frame[OF assms(1)] perform_frame[OF assms(2)]
  by (simp add: send_split_def Let_def perform_legs)

text \<open>
  C1, as the code has it. An action that consists of two or more decimal digits is
  delivered in two legs before any recovery leg, provided the first leg does not throw:
  the first leg carries the first digit alone, the second all remaining digits, and the
  only leg that may follow is one \<open>continueCall\<close>. An action of length at most 1 is
  delivered in exactly one leg, which carries the action as it is.
\<close>

theorem dispatch_split_digits:
  "(multi_digit act \<longrightarrow>
      (\<forall>r1 I1. perform E (SendDtmf (take 1 act)) I = (Reply r1, I1) \<longrightarrow>
         (\<exists>recovery.
            legs (snd (dispatch E act I))
              = legs I @ [SendDtmf (take 1 act), SendDtmf (drop 1 act)] @ recovery
            \<and> (recovery = [] \<or> recovery = [ContinueCall]))))
   \<and> (length act \<le> 1 \<longrightarrow>
        dispatch E act I = perform E (SendDtmf act) I
        \<and> legs (snd (dispatch E act I)) = legs I @ [SendDtmf act])"
  using send_split_legs[of E act I]
  by (auto simp add: multi_digit_dispatch short_action_dispatch perform_legs)

theorem dispatch_split_digits_witness:
  "multi_digit ''1234''
   \<and> perform (example_env ''1234'' ''Is this correct'') (SendDtmf (take 1 ''1234''))
         new_integration
       = (Reply ''Is this correct'', new_integration\<lparr>outside := 1, legs := [SendDtmf ''1'']\<rparr>)
   \<and> legs (snd (dispatch (example_env ''1234'' ''Is this correct'') ''1234'' new_integration))
       = [SendDtmf ''1'', SendDtmf ''234'']
   \<and> length ''#'' \<le> 1
   \<and> legs (snd (dispatch (example_env ''#'' ''Is this correct'') ''#'' new_integration))
       = [SendDtmf ''#'']"
proof -
  have a: "multi_digit ''1234''" by code_simp
  have b: "perform (example_env ''1234'' ''Is this correct'') (SendDtmf (take 1 ''1234''))
             new_integration
       = (Reply ''Is this correct'', new_integration\<lparr>outside := 1, legs := [SendDtmf ''1'']\<rparr>)"
    by (simp add: perform_def example_env_def new_integration_def)
  have c: "legs (snd (dispatch (example_env ''1234'' ''Is this correct'') ''1234''
                        new_integration))
       = [SendDtmf ''1'', SendDtmf ''234'']" by code_simp
  have d: "length ''#'' \<le> 1" by simp
  note split = dispatch_split_digits[of "''1234''" "example_env ''1234'' ''Is this correct''"
      new_integration, THEN conjunct1, rule_format, OF a b]
  note single = dispatch_split_digits[of "''#''" "example_env ''#'' ''Is this correct''"
      new_integration, THEN conjunct2, rule_format, OF d]
  from single have e:
    "legs (snd (dispatch (example_env ''#'' ''Is this correct'') ''#'' new_integration))
       = [SendDtmf ''#'']"
    by (simp add: new_integration_def perform_def example_env_def)
  from split a b c d e show ?thesis by simp
qed

text \<open>
  C1 as stated fails for an action of length 2 or more that is not all digits: the answer
  "Press 1" has length 7 and is delivered in a single leg that carries the digit 1.
\<close>

theorem dispatch_split_counterexample:
  "2 \<le> length ''Press 1''
   \<and> legs (snd (dispatch (example_env ''Press 1'' ''Is this correct'') ''Press 1''
                   new_integration))
       = [SendDtmf ''1'']"
  by code_simp

lemma split_digits_multi_digit: "multi_digit act \<Longrightarrow> split_digits act = Some act"
  by (auto simp add: split_digits_def multi_digit_def all_digits_def)

lemma split_digits_Some_iff:
  "split_digits act = Some ds \<longleftrightarrow>
     multi_digit act \<and> ds = act
     \<or> \<not> (all_digits act \<or> act = ''*'' \<or> act = ''#'')
       \<and> digitMatch act = Some ds \<and> 1 < length ds"
  by (auto simp add: split_digits_def multi_digit_def all_digits_def split: option.splits)

lemma dispatch_two_legs:
  "split_digits act = Some ds \<Longrightarrow> dispatch E act I = send_split E ds I"
  by (auto simp add: split_digits_def dispatch_def split: if_splits option.splits)

lemma dispatch_one_leg:
  "split_digits act = None \<Longrightarrow> \<exists>d. dispatch E act I = perform E (SendDtmf d) I"
  by (auto simp add: split_digits_def dispatch_def split: if_splits option.splits)

text \<open>
  C2. Every dispatch is either a single leg or the delivery of some digits in two legs,
  and the second happens on both paths of the code: for an action of two or more digits,
  and for an action that is not DTMF but has a run of two or more digits. In every
  dispatch with a second leg, when the prompt answered to the second leg is blank after
  trimming, exactly one \<open>continueCall\<close> leg follows and its reply, blank or not, is the
  result of the dispatch: three legs in all, and no further leg within the dispatch.
\<close>

theorem blank_recovery_bounded:
  "(split_digits act = Some ds \<longrightarrow>
      (\<forall>r1 I1 r2 I2.
         perform E (SendDtmf (take 1 ds)) I = (Reply r1, I1) \<longrightarrow>
         perform E (SendDtmf (drop 1 ds)) I1 = (Reply r2, I2) \<longrightarrow>
         trim r2 = [] \<longrightarrow>
           dispatch E act I = perform E ContinueCall I2
           \<and> legs (snd (dispatch E act I))
               = legs I @ [SendDtmf (take 1 ds), SendDtmf (drop 1 ds), ContinueCall]))
   \<and> (multi_digit act \<longrightarrow> split_digits act = Some act)
   \<and> (split_digits act = None \<longrightarrow>
        (\<exists>d. dispatch E act I = perform E (SendDtmf d) I
             \<and> legs (snd (dispatch E act I)) = legs I @ [SendDtmf d]))"
proof (intro conjI impI allI)
  fix r1 I1 r2 I2
  assume s: "split_digits act = Some ds"
    and p1: "perform E (SendDtmf (take 1 ds)) I = (Reply r1, I1)"
    and p2: "perform E (SendDtmf (drop 1 ds)) I1 = (Reply r2, I2)"
    and b: "trim r2 = []"
  note blank = send_split_blank[OF p1 p2 b]
  show "dispatch E act I = perform E ContinueCall I2"
    unfolding dispatch_two_legs[OF s] by (rule blank[THEN conjunct1])
  show "legs (snd (dispatch E act I))
      = legs I @ [SendDtmf (take 1 ds), SendDtmf (drop 1 ds), ContinueCall]"
    unfolding dispatch_two_legs[OF s] by (rule blank[THEN conjunct2])
next
  assume "multi_digit act"
  then show "split_digits act = Some act" by (rule split_digits_multi_digit)
next
  assume "split_digits act = None"
  from dispatch_one_leg[OF this, of E I] obtain d
    where d: "dispatch E act I = perform E (SendDtmf d) I" by blast
  then have "legs (snd (dispatch E act I)) = legs I @ [SendDtmf d]"
    by (simp add: perform_legs)
  with d show "\<exists>d. dispatch E act I = perform E (SendDtmf d) I
      \<and> legs (snd (dispatch E act I)) = legs I @ [SendDtmf d]"
    by blast
qed

text \<open>
  The witness takes an IVR that only answers blanks, on both paths: the action \<open>1234\<close>,
  and the action \<open>9009400#\<close>, whose digits \<open>9009400\<close> are split. The action \<open>Press 1\<close>
  has no second leg.
\<close>

theorem blank_recovery_bounded_witness:
  "multi_digit ''1234''
   \<and> split_digits ''1234'' = Some ''1234''
   \<and> split_digits ''9009400#'' = Some ''9009400''
   \<and> split_digits ''Press 1'' = None
   \<and> trim ''  '' = []
   \<and> dispatch (example_env ''1234'' ''  '') ''1234'' new_integration
       = (Reply ''  '',
          new_integration\<lparr>outside := 3,
            legs := [SendDtmf ''1'', SendDtmf ''234'', ContinueCall]\<rparr>)
   \<and> dispatch (example_env ''9009400#'' ''  '') ''9009400#'' new_integration
       = (Reply ''  '',
          new_integration\<lparr>outside := 3,
            legs := [SendDtmf ''9'', SendDtmf ''009400'', ContinueCall]\<rparr>)
   \<and> legs (snd (dispatch (example_env ''Press 1'' ''  '') ''Press 1'' new_integration))
       = [SendDtmf ''1'']"
proof -
  let ?E = "example_env ''1234'' ''  ''"
  let ?F = "example_env ''9009400#'' ''  ''"
  let ?G = "example_env ''Press 1'' ''  ''"
  have m: "multi_digit ''1234''" by code_simp
  have a: "split_digits ''1234'' = Some ''1234''" by code_simp
  have a': "split_digits ''9009400#'' = Some ''9009400''" by code_simp
  have n: "split_digits ''Press 1'' = None" by code_simp
  have d: "trim ''  '' = []" by code_simp
  have b: "perform ?E (SendDtmf (take 1 ''1234'')) new_integration
       = (Reply ''  '', new_integration\<lparr>outside := 1, legs := [SendDtmf ''1'']\<rparr>)"
    by (simp add: perform_def example_env_def new_integration_def)
  have c: "perform ?E (SendDtmf (drop 1 ''1234''))
             (new_integration\<lparr>outside := 1, legs := [SendDtmf ''1'']\<rparr>)
       = (Reply ''  '',
          new_integration\<lparr>outside := 2, legs := [SendDtmf ''1'', SendDtmf ''234'']\<rparr>)"
    by (simp add: perform_def example_env_def new_integration_def)
  have b': "perform ?F (SendDtmf (take 1 ''9009400'')) new_integration
       = (Reply ''  '', new_integration\<lparr>outside := 1, legs := [SendDtmf ''9'']\<rparr>)"
    by (simp add: perform_def example_env_def new_integration_def)
  have c': "perform ?F (SendDtmf (drop 1 ''9009400''))
             (new_integration\<lparr>outside := 1, legs := [SendDtmf ''9'']\<rparr>)
       = (Reply ''  '',
          new_integration\<lparr>outside := 2, legs := [SendDtmf ''9'', SendDtmf ''009400'']\<rparr>)"
    by (simp add: perform_def example_env_def new_integration_def)
  note digits = blank_recovery_bounded[of "''1234''" "''1234''" ?E new_integration,
      THEN conjunct1, rule_format, OF a b c d]
  note mixed = blank_recovery_bounded[of "''9009400#''" "''9009400''" ?F new_integration,
      THEN conjunct1, rule_format, OF a' b' c' d]
  note single = blank_recovery_bounded[of "''Press 1''" "[]" ?G new_integration,
      THEN conjunct2, THEN conjunct2, rule_format, OF n]
  from digits have e: "dispatch ?E ''1234'' new_integration
       = (Reply ''  '',
          new_integration\<lparr>outside := 3,
            legs := [SendDtmf ''1'', SendDtmf ''234'', ContinueCall]\<rparr>)"
    by (simp add: perform_def example_env_def new_integration_def)
  from mixed have e': "dispatch ?F ''9009400#'' new_integration
       = (Reply ''  '',
          new_integration\<lparr>outside := 3,
            legs := [SendDtmf ''9'', SendDtmf ''009400'', ContinueCall]\<rparr>)"
    by (simp add: perform_def example_env_def new_integration_def)
  have g: "legs (snd (dispatch ?G ''Press 1'' new_integration)) = [SendDtmf ''1'']"
    by code_simp
  from single m a a' n d e e' g show ?thesis by simp
qed

text \<open>
  After the dispatch the loop body makes its own check: when the prompt is still blank and
  the action is two or more digits, it performs one more \<open>continueCall\<close>. With an IVR
  that only answers blanks, one pass of the loop body so performs four IVR legs.
\<close>

lemma blank_recovery_legs:
  "legs (snd (blank_recovery E act p I)) = legs I
   \<or> legs (snd (blank_recovery E act p I)) = legs I @ [ContinueCall]"
  by (simp add: blank_recovery_def perform_legs)

lemma double_blank_example:
  "legs (snd (nav_step (example_env ''1234'' ''  '') 1 ''  ''
           (new_integration\<lparr>sessionId := Some ''session-1''\<rparr>)))
     = [SendMessage ''  '', SendDtmf ''1'', SendDtmf ''234'', ContinueCall, ContinueCall]"
  by code_simp

section \<open>The navigation loop at the step limit\<close>

lemma startSession_frame:
  "startSession E I = (r, I') \<Longrightarrow> history I' = history I \<and> currentStep I' = currentStep I"
  by (auto simp add: startSession_def split: prod.splits reply.splits dest!: perform_frame)

lemma endSession_frame:
  "history (endSession E I) = history I \<and> currentStep (endSession E I) = currentStep I"
  by (auto simp add: endSession_def split: prod.splits reply.splits dest!: perform_frame)

lemma askAmazonQ_frame:
  "askAmazonQ E p I = (r, I') \<Longrightarrow> history I' = history I \<and> currentStep I' = currentStep I"
  by (auto simp add: askAmazonQ_def split: prod.splits reply.splits if_splits
        dest!: perform_frame startSession_frame)

lemma send_split_frame:
  "send_split E ds I = (r, I') \<Longrightarrow> history I' = history I \<and> currentStep I' = currentStep I"
  by (auto simp add: send_split_def Let_def split: prod.splits reply.splits if_splits
        dest!: perform_frame)

lemma dispatch_frame:
  "dispatch E a I = (r, I') \<Longrightarrow> history I' = history I \<and> currentStep I' = currentStep I"
  by (auto simp add: dispatch_def split: option.splits if_splits
        dest!: perform_frame send_split_frame)

lemma blank_recovery_frame:
  "blank_recovery E a p I = (r, I') \<Longrightarrow>
     history I' = history I \<and> currentStep I' = currentStep I"
  by (auto simp add: blank_recovery_def split: if_splits dest!: perform_frame)

text \<open>A pass of the loop body that yields a next prompt appends one history entry.\<close>

lemma nav_step_next:
  assumes "nav_step E n p I = (NextPrompt p', I')"
  shows "currentStep I' = currentStep I \<and> (\<exists>e. history I' = history I @ [e] \<and> step e = n)"
  using assms
  by (auto simp add: nav_step_def Let_def split: prod.splits reply.splits if_splits
        dest!: perform_frame askAmazonQ_frame dispatch_frame blank_recovery_frame)

text \<open>
  A loop that is left at the step limit has set \<open>testCompleted\<close>, has counted to 20 and has
  appended one history entry for every step from the one it started with.
\<close>

lemma nav_loop_limit:
  "nav_loop E n p I = (LimitBreak tc, I') \<Longrightarrow> n < 20 \<Longrightarrow>
     tc \<and> currentStep I' = 20
     \<and> (\<exists>new. history I' = history I @ new \<and> map step new = [n + 1 ..< 21])"
proof (induction E n p I arbitrary: tc I' rule: nav_loop.induct)
  case (1 E n p I)
  obtain sr I1 where st: "nav_step E (n + 1) p (I\<lparr>currentStep := n + 1\<rparr>) = (sr, I1)"
    by fastforce
  show ?case
  proof (cases sr)
    case (Thrown m)
    with st "1.prems"(1) show ?thesis by (simp add: nav_loop.simps[of E n])
  next
    case HungUp
    with st "1.prems"(1) show ?thesis by (simp add: nav_loop.simps[of E n])
  next
    case (NextPrompt p')
    from nav_step_next[OF st[unfolded NextPrompt]]
    obtain e where cs: "currentStep I1 = n + 1"
      and h: "history I1 = history I @ [e]" and se: "step e = n + 1"
      by auto
    show ?thesis
    proof (cases "n + 1 \<ge> 20")
      case True
      with "1.prems"(2) have n19: "n = 19" by simp
      from "1.prems"(1) st NextPrompt True obtain r where
        pe: "perform E EndCall I1 = (Reply r, I')" and tc: "tc"
        by (auto simp add: nav_loop.simps[of E n] split: prod.splits reply.splits)
      from perform_frame[OF pe] cs h se n19 tc show ?thesis by simp
    next
      case False
      with "1.prems"(1) st NextPrompt
      have rec: "nav_loop E (n + 1) p' I1 = (LimitBreak tc, I')"
        by (simp add: nav_loop.simps[of E n])
      from False have lt: "n + 1 < 20" by simp
      from "1.IH"[OF st[symmetric] NextPrompt False rec lt]
      obtain new where tc: "tc" and c20: "currentStep I' = 20"
        and hn: "history I' = history I1 @ new" and sn: "map step new = [n + 1 + 1 ..< 21]"
        by auto
      have "[n + 1 ..< 21] = (n + 1) # [n + 1 + 1 ..< 21]"
        using lt by (simp add: upt_conv_Cons)
      with hn sn h se
      have "history I' = history I @ (e # new) \<and> map step (e # new) = [n + 1 ..< 21]"
        by simp
      with tc c20 show ?thesis by blast
    qed
  qed
qed

lemma step_limit_run:
  assumes "startSession E I = (Reply sid, I1)"
    and "perform E (StartCall testName) I1 = (Reply initialPrompt, I2)"
    and "nav_loop E 0 initialPrompt (I2\<lparr>currentStep := 0\<rparr>) = (LimitBreak testCompleted, I3)"
  shows "testCompleted
     \<and> fst (runAutomatedNavigation E testName I)
         = \<lparr>success = True, error = None, steps = 20, res_history = history I3\<rparr>
     \<and> (\<exists>new. history I3 = history I @ new \<and> map step new = [1 ..< 21])"
proof -
  from nav_loop_limit[OF assms(3)] obtain new where
    tc: "testCompleted" and c: "currentStep I3 = 20"
    and h: "history I3 = history (I2\<lparr>currentStep := 0\<rparr>) @ new"
    and s: "map step new = [1 ..< 21]"
    by auto
  from startSession_frame[OF assms(1)] perform_frame[OF assms(2)] h
  have h': "history I3 = history I @ new" by simp
  have "fst (runAutomatedNavigation E testName I)
         = \<lparr>success = True, error = None, steps = 20, res_history = history I3\<rparr>"
    using assms c by (simp add: runAutomatedNavigation_def finished_def Let_def endSession_frame)
  with tc h' s show ?thesis by blast
qed

text \<open>
  C3, as the code has it. When the session and the call have started and the loop is left
  at the step limit (the limit is the constant 20, and the final \<open>endCall\<close> has not
  thrown), this is not an error: \<open>runAutomatedNavigation\<close> returns \<open>success = true\<close>
  without an error, \<open>steps = 20\<close>, and the whole history, which is the history held before
  followed by one entry for each of the steps 1 to 20. The loop has set \<open>testCompleted\<close>
  to true, as it does on "hang up", and the result has no field that tells the two apart.
\<close>

theorem step_limit_reports_success:
  assumes "startSession E I = (Reply sid, I1)"
    and "perform E (StartCall testName) I1 = (Reply initialPrompt, I2)"
    and "nav_loop E 0 initialPrompt (I2\<lparr>currentStep := 0\<rparr>) = (LimitBreak testCompleted, I3)"
  shows "testCompleted
     \<and> fst (runAutomatedNavigation E testName I)
         = \<lparr>success = True, error = None, steps = 20, res_history = history I3\<rparr>
     \<and> (\<exists>new. history I3 = history I @ new \<and> map step new = [1 ..< 21])"
  using assms by (rule step_limit_run)

theorem step_limit_reports_success_witness:
  "startSession (example_env ''1'' ''Main menu'') new_integration
     = (Reply ''session-1'',
        new_integration\<lparr>sessionId := Some ''session-1'', outside := 1, legs := [StartSession]\<rparr>)
   \<and> perform (example_env ''1'' ''Main menu'') (StartCall ''AI_IVR_Test'')
        (new_integration\<lparr>sessionId := Some ''session-1'', outside := 1,
           legs := [StartSession]\<rparr>)
     = (Reply ''Main menu'',
        new_integration\<lparr>sessionId := Some ''session-1'', outside := 2,
          legs := [StartSession, StartCall ''AI_IVR_Test'']\<rparr>)
   \<and> fst (nav_loop (example_env ''1'' ''Main menu'') 0 ''Main menu''
        (new_integration\<lparr>sessionId := Some ''session-1'', outside := 2,
           legs := [StartSession, StartCall ''AI_IVR_Test''], currentStep := 0\<rparr>))
     = LimitBreak True
   \<and> success (fst (runAutomatedNavigation (example_env ''1'' ''Main menu'') ''AI_IVR_Test''
                     new_integration))
   \<and> steps (fst (runAutomatedNavigation (example_env ''1'' ''Main menu'') ''AI_IVR_Test''
                   new_integration)) = 20
   \<and> length (res_history (fst (runAutomatedNavigation (example_env ''1'' ''Main menu'')
                                 ''AI_IVR_Test'' new_integration))) = 20"
proof -
  let ?E = "example_env ''1'' ''Main menu''"
  let ?I1 = "new_integration\<lparr>sessionId := Some ''session-1'', outside := 1,
               legs := [StartSession]\<rparr>"
  let ?I2 = "new_integration\<lparr>sessionId := Some ''session-1'', outside := 2,
               legs := [StartSession, StartCall ''AI_IVR_Test'']\<rparr>"
  let ?loop = "nav_loop ?E 0 ''Main menu'' (?I2\<lparr>currentStep := 0\<rparr>)"
  have a: "startSession ?E new_integration = (Reply ''session-1'', ?I1)"
    by (simp add: startSession_def perform_def example_env_def new_integration_def)
  have b: "perform ?E (StartCall ''AI_IVR_Test'') ?I1 = (Reply ''Main menu'', ?I2)"
    by (simp add: perform_def example_env_def new_integration_def)
  have c: "fst ?loop = LimitBreak True" by code_simp
  then have d: "?loop = (LimitBreak True, snd ?loop)"
    by (metis prod.collapse)
  from step_limit_reports_success[OF a b d] obtain new where
    r: "fst (runAutomatedNavigation ?E ''AI_IVR_Test'' new_integration)
          = \<lparr>success = True, error = None, steps = 20, res_history = history (snd ?loop)\<rparr>"
    and h: "history (snd ?loop) = history new_integration @ new"
    and s: "map step new = [1 ..< 21]"
    by blast
  from s have "length (map step new) = 20" by simp
  then have "length new = 20" by simp
  with h have "length (history (snd ?loop)) = 20" by (simp add: new_integration_def)
  with a b c r show ?thesis by simp
qed

text \<open>
  C3 as stated fails: with collaborators that never say "hang up" the loop is left at the
  step limit with \<open>testCompleted\<close> true, and the result reports \<open>success = true\<close>; nothing
  in it is false or says "incomplete".
\<close>

theorem step_limit_counterexample:
  "fst (nav_loop (example_env ''1'' ''Main menu'') 0 ''Main menu''
        (new_integration\<lparr>sessionId := Some ''session-1'', outside := 2,
           legs := [StartSession, StartCall ''AI_IVR_Test''], currentStep := 0\<rparr>))
     = LimitBreak True
   \<and> success (fst (runAutomatedNavigation (example_env ''1'' ''Main menu'') ''AI_IVR_Test''
                     new_integration)) = True
   \<and> error (fst (runAutomatedNavigation (example_env ''1'' ''Main menu'') ''AI_IVR_Test''
                   new_integration)) = None
   \<and> steps (fst (runAutomatedNavigation (example_env ''1'' ''Main menu'') ''AI_IVR_Test''
                   new_integration)) = 20
   \<and> map action_taken
        (res_history (fst (runAutomatedNavigation (example_env ''1'' ''Main menu'')
                             ''AI_IVR_Test'' new_integration)))
       = replicate 20 ''1''"
  by code_simp

end
